theory Spec2Isabelle
  imports Main
begin

section \<open>Data model\<close>

text \<open>
  Attribute values of the ORM objects are Python values. The views assign strings and, in
  \<open>edit_profile\<close>, one-element tuples, so an attribute holds a \<open>pyval\<close>.
\<close>

datatype pyval = PyNone | Str string | Tuple "pyval list"

text \<open>
  The four tables. The module \<open>models.py\<close> that declares them is not part of the sources;
  the column names are those used by \<open>app.py\<close> and the tests
  (\<open>Follow(user_being_followed_id=..., user_following_id=...)\<close>,
  \<open>Like(user_id=..., message_id=...)\<close>, \<open>Message(text=..., user_id=...)\<close>), prefixed with
  the table name where two tables share a column name.
\<close>

record user =
  users_id :: nat
  username :: pyval
  email :: pyval
  password :: string
  image_url :: pyval
  header_image_url :: pyval
  bio :: pyval
  location :: pyval

record message =
  messages_id :: nat
  messages_text :: string
  created_at :: nat
  messages_user_id :: nat

record follow =
  user_being_followed_id :: nat
  user_following_id :: nat

record like =
  likes_user_id :: nat
  likes_message_id :: nat

text \<open>A table is the list of its rows, in the order in which \<open>query.all()\<close> returns them.\<close>

record database =
  users :: "user list"
  messages :: "message list"
  follows :: "follow list"
  likes :: "like list"

text \<open>
  What a request sees and changes: the database, the entry \<open>session[CURR_USER_KEY]\<close> of the
  cookie session, and the messages handed to \<open>flash\<close>.
\<close>

record app_state =
  db :: database
  session :: "nat option"
  flashed :: "(string \<times> string) list"

datatype error =
  Unauthorized | NotFound | IntegrityError | OperationalError | ValueError | AttributeError

datatype response =
    Redirect string
  | Render string
  | RenderMessages string "message list"

type_synonym result = "(error + response) \<times> app_state"

section \<open>Storage layer\<close>

definition query_get_user :: "database \<Rightarrow> nat \<Rightarrow> user option" where
  "query_get_user d i = find (\<lambda>u. users_id u = i) (users d)"

definition query_get_message :: "database \<Rightarrow> nat \<Rightarrow> message option" where
  "query_get_message d i = find (\<lambda>m. messages_id m = i) (messages d)"

definition user_get_or_404 :: "database \<Rightarrow> nat \<Rightarrow> error + user" where
  "user_get_or_404 d i = (case query_get_user d i of None \<Rightarrow> Inl NotFound | Some u \<Rightarrow> Inr u)"

definition message_get_or_404 :: "database \<Rightarrow> nat \<Rightarrow> error + message" where
  "message_get_or_404 d i =
     (case query_get_message d i of None \<Rightarrow> Inl NotFound | Some m \<Rightarrow> Inr m)"

text \<open>
  Modelled from the spec: the relationship \<open>User.following\<close> of \<open>models.py\<close>, which is
  missing. The spec makes it a derived view over the Follow edges: the users whose id is
  the \<open>user_being_followed_id\<close> of a row whose \<open>user_following_id\<close> is this user.
\<close>

definition following :: "database \<Rightarrow> user \<Rightarrow> user list" where
  "following d u =
     List.map_filter
       (\<lambda>f. if user_following_id f = users_id u
            then query_get_user d (user_being_followed_id f) else None)
       (follows d)"

text \<open>
  Modelled from the spec: the relationship \<open>User.liked_messages\<close> of \<open>models.py\<close>, which is
  missing: the messages named by the Like rows of this user.
\<close>

definition liked_messages :: "database \<Rightarrow> user \<Rightarrow> message list" where
  "liked_messages d u =
     List.map_filter
       (\<lambda>l. if likes_user_id l = users_id u
            then query_get_message d (likes_message_id l) else None)
       (likes d)"

section \<open>Request context\<close>

definition add_user_to_g :: "app_state \<Rightarrow> user option" where
  "add_user_to_g s =
     (case session s of Some i \<Rightarrow> query_get_user (db s) i | None \<Rightarrow> None)"

definition do_login :: "user \<Rightarrow> app_state \<Rightarrow> app_state" where
  "do_login u s = s\<lparr>session := Some (users_id u)\<rparr>"

definition do_logout :: "app_state \<Rightarrow> app_state" where
  "do_logout s = (if session s \<noteq> None then s\<lparr>session := None\<rparr> else s)"

definition flash :: "string \<Rightarrow> string \<Rightarrow> app_state \<Rightarrow> app_state" where
  "flash msg category s = s\<lparr>flashed := flashed s @ [(msg, category)]\<rparr>"

section \<open>Homepage\<close>

definition homepage :: "app_state \<Rightarrow> result" where
  "homepage s =
     (case add_user_to_g s of
        Some g_user \<Rightarrow>
          let user_ids_cur_user_is_following = set (map users_id (following (db s) g_user));
              followed_messages =
                filter (\<lambda>m. messages_user_id m \<in> user_ids_cur_user_is_following)
                  (messages (db s))
          in (Inr (RenderMessages ''home.html'' (take 100 followed_messages)), s)
      | None \<Rightarrow> (Inr (Render ''home-anon.html''), s))"

section \<open>Commit\<close>

text \<open>
  Modelled from the spec: the constraints of the tables declared in \<open>models.py\<close>, which is
  missing. The spec gives: \<open>User.id\<close>, \<open>username\<close> and \<open>email\<close> unique; \<open>Message.id\<close> unique;
  no duplicate Follow edge and no duplicate Like edge (composite keys); foreign keys from
  messages, follows and likes to users and from likes to messages, with no cascade at the
  level of the database.
\<close>

definition user_ids :: "database \<Rightarrow> nat list" where
  "user_ids d = map users_id (users d)"

definition message_ids :: "database \<Rightarrow> nat list" where
  "message_ids d = map messages_id (messages d)"

definition integrity :: "database \<Rightarrow> bool" where
  "integrity d \<longleftrightarrow>
     distinct (user_ids d) \<and>
     distinct (map username (users d)) \<and>
     distinct (map email (users d)) \<and>
     distinct (message_ids d) \<and>
     list_all (\<lambda>m. messages_user_id m \<in> set (user_ids d)) (messages d) \<and>
     distinct (follows d) \<and>
     list_all (\<lambda>f. user_being_followed_id f \<in> set (user_ids d) \<and>
                    user_following_id f \<in> set (user_ids d)) (follows d) \<and>
     distinct (likes d) \<and>
     list_all (\<lambda>l. likes_user_id l \<in> set (user_ids d) \<and>
                    likes_message_id l \<in> set (message_ids d)) (likes d)"

text \<open>
  \<open>db.session.commit()\<close> on the pending tables: the storage keeps them when every
  constraint holds and raises \<open>IntegrityError\<close>, keeping nothing, otherwise.
\<close>

definition commit :: "database \<Rightarrow> error + database" where
  "commit pending = (if integrity pending then Inr pending else Inl IntegrityError)"

section \<open>Auth service\<close>

text \<open>
  The password hasher and the column default \<open>User.image_url.default.arg\<close> come from
  outside \<open>app.py\<close>; they are parameters. The salt that the hasher draws is an argument.
\<close>

record env =
  generate_password_hash :: "string \<Rightarrow> string \<Rightarrow> string"
  check_password_hash :: "string \<Rightarrow> string \<Rightarrow> bool"
  default_image_url :: string
  default_header_image_url :: string

definition fresh_user_id :: "database \<Rightarrow> nat" where
  "fresh_user_id d = Suc (fold max (user_ids d) 0)"

text \<open>
  Modelled from the spec: \<open>User.signup(username, email, password, image_url)\<close> of
  \<open>models.py\<close>, which is missing. It validates the presence of the required fields, hashes
  the password, builds the user with the defaults of the optional fields and adds it to the
  pending session; committing is left to the caller.
\<close>

definition User_signup ::
  "env \<Rightarrow> string \<Rightarrow> string \<Rightarrow> string \<Rightarrow> string \<Rightarrow> string option \<Rightarrow> database
     \<Rightarrow> error + user \<times> database" where
  "User_signup E salt name mail pwd img d =
     (if name = [] \<or> mail = [] \<or> pwd = [] then Inl ValueError
      else
        let u = \<lparr>users_id = fresh_user_id d,
                 username = Str name,
                 email = Str mail,
                 password = generate_password_hash E salt pwd,
                 image_url = Str (case img of None \<Rightarrow> default_image_url E | Some i \<Rightarrow> i),
                 header_image_url = Str (default_header_image_url E),
                 bio = PyNone,
                 location = PyNone\<rparr>
        in Inr (u, d\<lparr>users := users d @ [u]\<rparr>))"

datatype auth_result = AuthUser user | AuthFalse

text \<open>
  Modelled from the spec: \<open>User.authenticate(username, password)\<close> of \<open>models.py\<close>, which
  is missing. It looks the user up by exact username; a user found whose stored hash
  verifies the password is returned, and \<open>False\<close> in every other case.
\<close>

definition User_authenticate :: "env \<Rightarrow> database \<Rightarrow> pyval \<Rightarrow> string \<Rightarrow> auth_result" where
  "User_authenticate E d name pwd =
     (case find (\<lambda>u. username u = name) (users d) of
        Some u \<Rightarrow> if check_password_hash E (password u) pwd then AuthUser u else AuthFalse
      | None \<Rightarrow> AuthFalse)"

text \<open>
  The forms. \<open>forms.py\<close> is missing: the outcome of \<open>validate_on_submit()\<close> is a field of
  the submitted form, next to the data of its fields.
\<close>

record user_add_form =
  add_valid :: bool
  add_username :: string
  add_password :: string
  add_email :: string
  add_image_url :: string


text \<open>The body of the \<open>try\<close> block of \<open>signup\<close>: \<open>User.signup\<close>, then the commit.\<close>

definition signup_try :: "env \<Rightarrow> string \<Rightarrow> user_add_form \<Rightarrow> database \<Rightarrow> error + user \<times> database" where
  "signup_try E salt form d =
     (case User_signup E salt (add_username form) (add_email form) (add_password form)
             (Some (if add_image_url form = [] then default_image_url E
                    else add_image_url form)) d of
        Inl e \<Rightarrow> Inl e
      | Inr (u, pending) \<Rightarrow>
          (case commit pending of Inl e \<Rightarrow> Inl e | Inr d' \<Rightarrow> Inr (u, d')))"

definition signup :: "env \<Rightarrow> string \<Rightarrow> user_add_form \<Rightarrow> app_state \<Rightarrow> result" where
  "signup E salt form s =
     (let s0 = do_logout s in
      if add_valid form then
        (case signup_try E salt form (db s0) of
           Inl e \<Rightarrow>
             if e = IntegrityError
             then (Inr (Render ''users/signup.html''),
                   flash ''Username already taken'' ''danger'' s0)
             else (Inl e, s0)
         | Inr (u, d') \<Rightarrow> (Inr (Redirect ''/''), do_login u (s0\<lparr>db := d'\<rparr>)))
      else (Inr (Render ''users/signup.html''), s0))"

section \<open>Following\<close>

text \<open>The decimal digits of an id, as an f-string prints them.\<close>

definition digit :: "nat \<Rightarrow> char" where
  "digit n = ''0123456789'' ! (n mod 10)"

fun str :: "nat \<Rightarrow> string" where
  "str n = (if n < 10 then [digit n] else str (n div 10) @ [digit n])"

text \<open>
  \<open>g.user.following.remove(followed_user)\<close> is the removal of a list: it raises
  \<open>ValueError\<close> when the user is not in the collection, and otherwise drops the Follow row
  that links the two users.
\<close>

definition stop_following :: "nat \<Rightarrow> app_state \<Rightarrow> result" where
  "stop_following follow_id s =
     (case add_user_to_g s of
        None \<Rightarrow> (Inr (Redirect ''/''), flash ''Access unauthorized.'' ''danger'' s)
      | Some g_user \<Rightarrow>
          (case user_get_or_404 (db s) follow_id of
             Inl e \<Rightarrow> (Inl e, s)
           | Inr followed_user \<Rightarrow>
               if followed_user \<in> set (following (db s) g_user) then
                 (case commit ((db s)\<lparr>follows :=
                          remove1 \<lparr>user_being_followed_id = users_id followed_user,
                                   user_following_id = users_id g_user\<rparr> (follows (db s))\<rparr>) of
                    Inl e \<Rightarrow> (Inl e, s)
                  | Inr d' \<Rightarrow>
                      (Inr (Redirect (''/users/'' @ str (users_id g_user) @ ''/following'')),
                       s\<lparr>db := d'\<rparr>))
               else (Inl ValueError, s)))"

section \<open>Profile\<close>





section \<open>Account deletion\<close>

text \<open>
  Modelled from the spec: the relationships of \<open>models.py\<close>, which is missing. The views
  and the tests reach the Follow and Like rows through the collections
  \<open>g.user.following\<close>, \<open>u1.followers\<close>, \<open>g.user.liked_messages\<close> and \<open>m1.users_liked_by\<close>,
  which the spec describes as collection-valued relationship properties whose changes
  issue the storage writes. \<open>db.session.delete\<close> of an object that owns such a collection
  deletes the rows of the collection with it: the Like rows of a deleted message, and the
  Follow rows (in both directions) and the Like rows of a deleted user.
\<close>

definition delete_message_row :: "message \<Rightarrow> database \<Rightarrow> database" where
  "delete_message_row m d =
     d\<lparr>messages := removeAll m (messages d),
       likes := filter (\<lambda>l. likes_message_id l \<noteq> messages_id m) (likes d)\<rparr>"

definition delete_like_row :: "like \<Rightarrow> database \<Rightarrow> database" where
  "delete_like_row l d = d\<lparr>likes := removeAll l (likes d)\<rparr>"

definition delete_user_row :: "user \<Rightarrow> database \<Rightarrow> database" where
  "delete_user_row u d =
     d\<lparr>users := removeAll u (users d),
       follows := filter (\<lambda>f. user_being_followed_id f \<noteq> users_id u \<and>
                               user_following_id f \<noteq> users_id u) (follows d),
       likes := filter (\<lambda>l. likes_user_id l \<noteq> users_id u) (likes d)\<rparr>"

text \<open>
  The storage can also fail for a reason of its own (a lost connection, an aborted
  transaction): \<open>db.session.commit()\<close> then raises \<open>OperationalError\<close> and keeps nothing.
  Whether the storage is up when \<open>delete_user\<close> commits is an input of the view.
\<close>

definition commit_on :: "bool \<Rightarrow> database \<Rightarrow> error + database" where
  "commit_on storage_up pending =
     (if storage_up then commit pending else Inl OperationalError)"

definition delete_user :: "bool \<Rightarrow> bool \<Rightarrow> app_state \<Rightarrow> result" where
  "delete_user csrf_ok storage_up s =
     (case add_user_to_g s of
        None \<Rightarrow> (Inr (Redirect ''/''), flash ''Access unauthorized.'' ''danger'' s)
      | Some g_user \<Rightarrow>
          if \<not> csrf_ok
          then (Inr (Redirect ''/''), flash ''Access unauthorized.'' ''danger'' s)
          else
            let s1 = do_logout s;
                d = db s1;
                d1 = fold delete_message_row
                       (filter (\<lambda>m. messages_user_id m = users_id g_user) (messages d)) d;
                d2 = fold delete_like_row
                       (filter (\<lambda>l. likes_user_id l = users_id g_user) (likes d1)) d1;
                d3 = delete_user_row g_user d2
            in (case commit_on storage_up d3 of
                  Inl e \<Rightarrow> (Inl e, s1)
                | Inr d' \<Rightarrow> (Inr (Redirect ''/signup''), s1\<lparr>db := d'\<rparr>)))"

section \<open>Likes\<close>

text \<open>
  \<open>referrer\<close> is the \<open>Referer\<close> header of the request, to which the view redirects.
\<close>

definition toggle_like :: "bool \<Rightarrow> string \<Rightarrow> nat \<Rightarrow> app_state \<Rightarrow> result" where
  "toggle_like csrf_ok referrer message_id s =
     (if \<not> csrf_ok then (Inl Unauthorized, s)
      else
        (case add_user_to_g s of
           None \<Rightarrow> (Inl Unauthorized, s)
         | Some g_user \<Rightarrow>
             (case message_get_or_404 (db s) message_id of
                Inl e \<Rightarrow> (Inl e, s)
              | Inr m \<Rightarrow>
                  if messages_user_id m = users_id g_user then (Inl Unauthorized, s)
                  else
                    let row = \<lparr>likes_user_id = users_id g_user,
                               likes_message_id = messages_id m\<rparr>;
                        pending =
                          (if m \<in> set (liked_messages (db s) g_user)
                           then (db s)\<lparr>likes := remove1 row (likes (db s))\<rparr>
                           else (db s)\<lparr>likes := likes (db s) @ [row]\<rparr>)
                    in (case commit pending of
                          Inl e \<Rightarrow> (Inl e, s)
                        | Inr d' \<Rightarrow> (Inr (Redirect referrer), s\<lparr>db := d'\<rparr>)))))"

section \<open>Sample data\<close>

text \<open>
  The users \<open>u1\<close> and \<open>u2\<close> of the test suites, messages, and a state in which \<open>u1\<close> is
  logged in. The sample hasher prefixes the password with a salt of four characters.
\<close>

definition sample_env :: env where
  "sample_env =
     \<lparr>generate_password_hash = (\<lambda>salt pwd. salt @ pwd),
      check_password_hash = (\<lambda>h pwd. drop 4 h = pwd),
      default_image_url = ''/static/images/default-pic.png'',
      default_header_image_url = ''/static/images/warbler-hero.jpg''\<rparr>"

definition mk_user :: "nat \<Rightarrow> string \<Rightarrow> user" where
  "mk_user i name =
     \<lparr>users_id = i, username = Str name, email = Str (name @ ''@email.com''),
      password = ''saltpassword'', image_url = Str ''/static/images/default-pic.png'',
      header_image_url = Str ''/static/images/warbler-hero.jpg'', bio = PyNone,
      location = PyNone\<rparr>"

definition mk_message :: "nat \<Rightarrow> nat \<Rightarrow> nat \<Rightarrow> message" where
  "mk_message i t author =
     \<lparr>messages_id = i, messages_text = ''text'', created_at = t, messages_user_id = author\<rparr>"

definition mk_state :: "message list \<Rightarrow> follow list \<Rightarrow> like list \<Rightarrow> app_state" where
  "mk_state ms fs ls =
     \<lparr>db = \<lparr>users = [mk_user 1 ''u1'', mk_user 2 ''u2''], messages = ms, follows = fs,
            likes = ls\<rparr>,
      session = Some 1, flashed = []\<rparr>"

definition empty_state :: app_state where
  "empty_state = \<lparr>db = \<lparr>users = [], messages = [], follows = [], likes = []\<rparr>,
                   session = None, flashed = []\<rparr>"

definition mk_add_form :: "string \<Rightarrow> string \<Rightarrow> user_add_form" where
  "mk_add_form name mail =
     \<lparr>add_valid = True, add_username = name, add_password = ''password'', add_email = mail,
      add_image_url = ''''\<rparr>"


section \<open>Lemmas on the storage layer\<close>

lemmas ex_defs = sample_env_def mk_user_def mk_message_def mk_state_def
lemmas q_defs = add_user_to_g_def query_get_user_def query_get_message_def
  user_get_or_404_def message_get_or_404_def following_def liked_messages_def
lemmas c_defs = commit_def integrity_def user_ids_def message_ids_def

lemma query_get_user_SomeD:
  "query_get_user d i = Some u \<Longrightarrow> u \<in> set (users d) \<and> users_id u = i"
  unfolding query_get_user_def by (auto simp: find_Some_iff)

lemma query_get_message_SomeD:
  "query_get_message d i = Some m \<Longrightarrow> m \<in> set (messages d) \<and> messages_id m = i"
  unfolding query_get_message_def by (auto simp: find_Some_iff)

lemma liked_messages_member:
  assumes "query_get_message d i = Some m"
  shows "m \<in> set (liked_messages d u) \<longleftrightarrow>
         \<lparr>likes_user_id = users_id u, likes_message_id = messages_id m\<rparr> \<in> set (likes d)"
proof
  assume "m \<in> set (liked_messages d u)"
  then obtain l where l: "l \<in> set (likes d)" "likes_user_id l = users_id u"
      "query_get_message d (likes_message_id l) = Some m"
    unfolding liked_messages_def by (auto simp: map_filter_def split: if_splits)
  from l(3) have "likes_message_id l = messages_id m"
    using query_get_message_SomeD by fastforce
  with l(2) have "l = \<lparr>likes_user_id = users_id u, likes_message_id = messages_id m\<rparr>"
    by simp
  with l(1) show "\<lparr>likes_user_id = users_id u, likes_message_id = messages_id m\<rparr> \<in> set (likes d)"
    by simp
next
  assume r: "\<lparr>likes_user_id = users_id u, likes_message_id = messages_id m\<rparr> \<in> set (likes d)"
  have "messages_id m = i" using assms query_get_message_SomeD by blast
  with assms r show "m \<in> set (liked_messages d u)"
    unfolding liked_messages_def by (force simp: map_filter_def)
qed

lemma integrity_likes_remove1:
  "integrity d \<Longrightarrow> integrity (d\<lparr>likes := remove1 r (likes d)\<rparr>)"
  unfolding integrity_def user_ids_def message_ids_def list_all_iff
  by (auto dest: notin_set_remove1)

lemma integrity_likes_append:
  assumes "integrity d" "r \<notin> set (likes d)" "likes_user_id r \<in> set (user_ids d)"
    "likes_message_id r \<in> set (message_ids d)"
  shows "integrity (d\<lparr>likes := likes d @ [r]\<rparr>)"
  using assms unfolding integrity_def user_ids_def message_ids_def list_all_iff
  by auto

lemma add_user_to_g_likes:
  "add_user_to_g (s\<lparr>db := (db s)\<lparr>likes := l\<rparr>\<rparr>) = add_user_to_g s"
  by (simp add: add_user_to_g_def query_get_user_def split: option.splits)

lemma query_get_message_likes:
  "query_get_message (d\<lparr>likes := l\<rparr>) i = query_get_message d i"
  by (simp add: query_get_message_def)


lemma find_append_last:
  "find P (xs @ [y]) = (case find P xs of Some x \<Rightarrow> Some x | None \<Rightarrow> if P y then Some y else None)"
  by (induction xs) auto

lemma User_signup_InrD:
  assumes "User_signup E salt name mail pwd img d = Inr (u, pending)"
  shows "pending = d\<lparr>users := users d @ [u]\<rparr> \<and> username u = Str name \<and> email u = Str mail \<and>
         password u = generate_password_hash E salt pwd"
  using assms by (auto simp: User_signup_def Let_def split: if_splits)

lemma commit_InrD: "commit pending = Inr d' \<Longrightarrow> d' = pending \<and> integrity pending"
  by (auto simp: commit_def split: if_splits)

lemma distinct_map_count:
  "distinct (map f xs) \<Longrightarrow> x \<in> set xs \<Longrightarrow> length (filter (\<lambda>y. f y = f x) xs) = 1"
proof (induction xs)
  case Nil
  then show ?case by simp
next
  case (Cons a xs)
  show ?case
  proof (cases "f a = f x")
    case True
    with Cons.prems have "\<forall>y\<in>set xs. f y \<noteq> f x" by (auto simp: image_iff)
    then have "filter (\<lambda>y. f y = f x) xs = []" by (auto simp: filter_empty_conv)
    with True show ?thesis by simp
  next
    case False
    with Cons show ?thesis by auto
  qed
qed

lemma signup_try_duplicate:
  assumes "add_username form \<noteq> []" "add_email form \<noteq> []" "add_password form \<noteq> []"
    and "Str (add_username form) \<in> set (map username (users d)) \<or>
         Str (add_email form) \<in> set (map email (users d))"
  shows "signup_try E salt form d = Inl IntegrityError"
  using assms by (auto simp: signup_try_def User_signup_def Let_def commit_def integrity_def)

lemma signup_RedirectD:
  assumes "signup E salt form s = (Inr (Redirect ''/''), s')"
  shows "\<exists>u. signup_try E salt form (db (do_logout s)) = Inr (u, db s') \<and> session s' = Some (users_id u)"
  using assms
  by (auto simp: signup_def Let_def do_login_def split: if_splits sum.splits)

lemma signup_try_InrD:
  assumes "signup_try E salt form d = Inr (u, d')"
  shows "integrity d' \<and> u \<in> set (users d') \<and> username u = Str (add_username form) \<and> add_username form \<noteq> []"
  using assms 
  by (auto simp: signup_try_def User_signup_def Let_def commit_def split: if_splits sum.splits)

lemma db_do_logout: "db (do_logout s) = db s"
  by (simp add: do_logout_def)

lemma removeAll_as_filter: "removeAll a xs = filter (\<lambda>x. x \<noteq> a) xs"
  by (induction xs) auto

lemma fold_delete_message_row:
  "fold delete_message_row ms d =
     d\<lparr>messages := filter (\<lambda>x. x \<notin> set ms) (messages d),
       likes := filter (\<lambda>l. likes_message_id l \<notin> set (map messages_id ms)) (likes d)\<rparr>"
proof (induction ms arbitrary: d)
  case Nil
  then show ?case by simp
next
  case (Cons m ms)
  have "fold delete_message_row (m # ms) d = fold delete_message_row ms (delete_message_row m d)"
    by simp
  also have "\<dots> = (delete_message_row m d)
      \<lparr>messages := filter (\<lambda>x. x \<notin> set ms) (messages (delete_message_row m d)),
       likes := filter (\<lambda>l. likes_message_id l \<notin> set (map messages_id ms))
                  (likes (delete_message_row m d))\<rparr>"
    by (rule Cons.IH)
  also have "\<dots> = d\<lparr>messages := filter (\<lambda>x. x \<notin> set (m # ms)) (messages d),
       likes := filter (\<lambda>l. likes_message_id l \<notin> set (map messages_id (m # ms))) (likes d)\<rparr>"
    by (simp add: delete_message_row_def removeAll_as_filter)
  finally show ?case .
qed

lemma fold_delete_like_row:
  "fold delete_like_row ls d = d\<lparr>likes := filter (\<lambda>x. x \<notin> set ls) (likes d)\<rparr>"
  by (induction ls arbitrary: d) (simp_all add: delete_like_row_def removeAll_as_filter)

lemma delete_messages_where:
  "fold delete_message_row (filter P (messages d)) d =
     d\<lparr>messages := filter (\<lambda>x. \<not> P x) (messages d),
       likes := filter (\<lambda>l. likes_message_id l \<notin> set (map messages_id (filter P (messages d))))
                  (likes d)\<rparr>"
proof -
  have "filter (\<lambda>x. x \<notin> set (filter P (messages d))) (messages d) =
        filter (\<lambda>x. \<not> P x) (messages d)"
    by (rule filter_cong) auto
  then show ?thesis by (simp only: fold_delete_message_row)
qed

lemma delete_likes_where:
  "fold delete_like_row (filter P (likes d)) d = d\<lparr>likes := filter (\<lambda>x. \<not> P x) (likes d)\<rparr>"
proof -
  have "filter (\<lambda>x. x \<notin> set (filter P (likes d))) (likes d) = filter (\<lambda>x. \<not> P x) (likes d)"
    by (rule filter_cong) auto
  then show ?thesis by (simp only: fold_delete_like_row)
qed

lemma user_ids_removeAll:
  assumes "distinct (map users_id us)" "u \<in> set us"
  shows "set (map users_id (removeAll u us)) = set (map users_id us) - {users_id u}"
  using assms by (induction us) (auto simp: image_iff)

lemma integrity_without_user:
  assumes "integrity d" "u \<in> set (users d)"
  shows "integrity
     (d\<lparr>users := removeAll u (users d),
        messages := filter (\<lambda>m. messages_user_id m \<noteq> users_id u) (messages d),
        follows := filter (\<lambda>f. user_being_followed_id f \<noteq> users_id u \<and>
                                user_following_id f \<noteq> users_id u) (follows d),
        likes := filter (\<lambda>l. likes_user_id l \<noteq> users_id u \<and>
                   likes_message_id l \<notin> set (map messages_id
                     (filter (\<lambda>m. messages_user_id m = users_id u) (messages d)))) (likes d)\<rparr>)"
proof -
  from assms(1) have du: "distinct (map users_id (users d))"
    by (simp add: integrity_def user_ids_def)
  have ids: "set (map users_id (removeAll u (users d))) = set (map users_id (users d)) - {users_id u}"
    using user_ids_removeAll [OF du assms(2)] .
  have d1: "distinct (map users_id (removeAll u (users d)))"
    using du by (simp add: removeAll_as_filter distinct_map_filter)
  have d2: "distinct (map username (removeAll u (users d)))"
    using assms(1) by (simp add: integrity_def removeAll_as_filter distinct_map_filter)
  have d3: "distinct (map email (removeAll u (users d)))"
    using assms(1) by (simp add: integrity_def removeAll_as_filter distinct_map_filter)
  have d4: "distinct (map messages_id (filter (\<lambda>m. messages_user_id m \<noteq> users_id u) (messages d)))"
    using assms(1) by (simp add: integrity_def message_ids_def distinct_map_filter)
  have fk: "list_all (\<lambda>m. messages_user_id m \<in> set (map users_id (removeAll u (users d))))
              (filter (\<lambda>m. messages_user_id m \<noteq> users_id u) (messages d))"
    using assms(1) unfolding ids by (auto simp: integrity_def user_ids_def list_all_iff)
  have ff: "list_all (\<lambda>f. user_being_followed_id f \<in> set (map users_id (removeAll u (users d))) \<and>
                 user_following_id f \<in> set (map users_id (removeAll u (users d))))
              (filter (\<lambda>f. user_being_followed_id f \<noteq> users_id u \<and>
                            user_following_id f \<noteq> users_id u) (follows d))"
    using assms(1) unfolding ids by (auto simp: integrity_def user_ids_def list_all_iff)
  have fl: "list_all (\<lambda>l. likes_user_id l \<in> set (map users_id (removeAll u (users d))) \<and>
                 likes_message_id l \<in> set (map messages_id
                    (filter (\<lambda>m. messages_user_id m \<noteq> users_id u) (messages d))))
              (filter (\<lambda>l. likes_user_id l \<noteq> users_id u \<and>
                   likes_message_id l \<notin> set (map messages_id
                     (filter (\<lambda>m. messages_user_id m = users_id u) (messages d)))) (likes d))"
    unfolding list_all_iff
  proof (intro ballI conjI)
    fix l
    assume "l \<in> set (filter (\<lambda>l. likes_user_id l \<noteq> users_id u \<and>
                   likes_message_id l \<notin> set (map messages_id
                     (filter (\<lambda>m. messages_user_id m = users_id u) (messages d)))) (likes d))"
    then have l: "l \<in> set (likes d)" and lu: "likes_user_id l \<noteq> users_id u"
      and lm: "likes_message_id l \<notin> set (map messages_id
                     (filter (\<lambda>m. messages_user_id m = users_id u) (messages d)))"
      by simp_all
    from assms(1) l have "likes_user_id l \<in> set (map users_id (users d))"
      and "likes_message_id l \<in> set (map messages_id (messages d))"
      by (auto simp: integrity_def user_ids_def message_ids_def list_all_iff)
    then obtain m where m: "m \<in> set (messages d)" "likes_message_id l = messages_id m"
      by auto
    with lm have "messages_user_id m \<noteq> users_id u" by auto
    with m show "likes_message_id l \<in> set (map messages_id
                    (filter (\<lambda>m. messages_user_id m \<noteq> users_id u) (messages d)))"
      by auto
    from \<open>likes_user_id l \<in> set (map users_id (users d))\<close> lu
    show "likes_user_id l \<in> set (map users_id (removeAll u (users d)))"
      unfolding ids by simp
  qed
  show ?thesis
    using assms(1) d1 d2 d3 d4 fk ff fl
    by (simp add: integrity_def user_ids_def message_ids_def)
qed

lemma toggle_like_step:
  assumes "integrity (db s)" "add_user_to_g s = Some a" "query_get_message (db s) i = Some m"
    "messages_user_id m \<noteq> users_id a"
  shows "toggle_like True r i s =
     (Inr (Redirect r),
      s\<lparr>db := (db s)\<lparr>likes :=
           (if \<lparr>likes_user_id = users_id a, likes_message_id = messages_id m\<rparr> \<in> set (likes (db s))
            then remove1 \<lparr>likes_user_id = users_id a, likes_message_id = messages_id m\<rparr> (likes (db s))
            else likes (db s) @ [\<lparr>likes_user_id = users_id a, likes_message_id = messages_id m\<rparr>])\<rparr>\<rparr>)"
proof -
  let ?row = "\<lparr>likes_user_id = users_id a, likes_message_id = messages_id m\<rparr>"
  have mem: "m \<in> set (liked_messages (db s) a) \<longleftrightarrow> ?row \<in> set (likes (db s))"
    using liked_messages_member [OF assms(3)] .
  have a_in: "users_id a \<in> set (user_ids (db s))"
    using assms(2) query_get_user_SomeD
    by (fastforce simp: add_user_to_g_def user_ids_def split: option.splits)
  have m_in: "messages_id m \<in> set (message_ids (db s))"
    using assms(3) query_get_message_SomeD by (fastforce simp: message_ids_def)
  show ?thesis
  proof (cases "?row \<in> set (likes (db s))")
    case True
    have "integrity ((db s)\<lparr>likes := remove1 ?row (likes (db s))\<rparr>)"
      using assms(1) by (rule integrity_likes_remove1)
    with True mem assms show ?thesis
      by (simp add: toggle_like_def message_get_or_404_def commit_def)
  next
    case False
    have "integrity ((db s)\<lparr>likes := likes (db s) @ [?row]\<rparr>)"
      using integrity_likes_append [OF assms(1) False] a_in m_in by simp
    with False mem assms show ?thesis
      by (simp add: toggle_like_def message_get_or_404_def commit_def)
  qed
qed

section \<open>Feed\<close>

text \<open>
  Claim C1: the feed of a logged-in user holds the messages written by the user or by a user
  that the user follows, and no others. The view collects the ids of the followed users only:
  with \<open>u1\<close> following \<open>u2\<close>, one message of each, the page shows the message of \<open>u2\<close>
  and not the one \<open>u1\<close> wrote.
\<close>

theorem own_message_missing:
  "homepage (mk_state [mk_message 1 1 1, mk_message 2 2 2]
       [\<lparr>user_being_followed_id = 2, user_following_id = 1\<rparr>] []) =
     (Inr (RenderMessages ''home.html'' [mk_message 2 2 2]),
      mk_state [mk_message 1 1 1, mk_message 2 2 2]
       [\<lparr>user_being_followed_id = 2, user_following_id = 1\<rparr>] [])"
  by (simp add: homepage_def ex_defs q_defs)

text \<open>
  Claim C2: the feed is ordered most recent first and cut to 100 messages. The view keeps
  the order of \<open>Message.query.all()\<close> and cuts after it: of 101 messages of a followed user,
  stored in the order of their creation, the page shows the 100 oldest, oldest first, and
  drops the most recent one.
\<close>

theorem feed_in_table_order:
  "homepage (mk_state (map (\<lambda>i. mk_message i i 2) [1..<102])
       [\<lparr>user_being_followed_id = 2, user_following_id = 1\<rparr>] []) =
     (Inr (RenderMessages ''home.html'' (map (\<lambda>i. mk_message i i 2) [1..<101])),
      mk_state (map (\<lambda>i. mk_message i i 2) [1..<102])
       [\<lparr>user_being_followed_id = 2, user_following_id = 1\<rparr>] [])"
  by (simp add: homepage_def mk_state_def mk_user_def q_defs)
     (simp add: mk_message_def filter_map o_def take_map)

section \<open>Account deletion\<close>

text \<open>
  Claim C3, as stated: when a step of the deletion fails, nothing is removed and the session
  is unchanged. Here \<open>u1\<close>, who wrote a message and is followed by \<open>u2\<close>, deletes the
  account while the storage is down: the commit raises, no row is removed, and the entry of
  \<open>u1\<close> is gone from the session all the same, since \<open>do_logout\<close> ran before the deletions.
\<close>

theorem delete_user_session_counterexample:
  "delete_user True False
     (mk_state [mk_message 1 1 1] [\<lparr>user_being_followed_id = 1, user_following_id = 2\<rparr>] []) =
     (Inl OperationalError,
      (mk_state [mk_message 1 1 1] [\<lparr>user_being_followed_id = 1, user_following_id = 2\<rparr>] [])
        \<lparr>session := None\<rparr>) \<and>
   session (snd (delete_user True False
      (mk_state [mk_message 1 1 1]
         [\<lparr>user_being_followed_id = 1, user_following_id = 2\<rparr>] []))) \<noteq>
   session (mk_state [mk_message 1 1 1]
         [\<lparr>user_being_followed_id = 1, user_following_id = 2\<rparr>] [])"
  by (simp add: delete_user_def do_logout_def commit_on_def Let_def ex_defs q_defs)

text \<open>
  Claim C3, amended: on a database that satisfies its constraints, \<open>delete_user\<close> first
  deletes the session entry of the user, then marks for deletion the messages written by
  the user, the likes placed by the user and the user, and commits once. When the commit
  succeeds, the user, the messages and likes of the user, and the Like and Follow rows that
  name them are gone, nothing else is, and the view redirects to the signup page. When the
  commit fails, the view raises and no row is removed. The session entry is deleted in both
  cases: it is not part of the unit.
\<close>

theorem delete_user_unit:
  assumes "integrity (db s)" "add_user_to_g s = Some u"
  shows "delete_user True storage_up s =
     (if storage_up
      then (Inr (Redirect ''/signup''),
            s\<lparr>session := None,
              db := (db s)
                \<lparr>users := removeAll u (users (db s)),
                 messages := filter (\<lambda>m. messages_user_id m \<noteq> users_id u) (messages (db s)),
                 follows := filter (\<lambda>f. user_being_followed_id f \<noteq> users_id u \<and>
                                user_following_id f \<noteq> users_id u) (follows (db s)),
                 likes := filter (\<lambda>l. likes_user_id l \<noteq> users_id u \<and>
                   likes_message_id l \<notin> set (map messages_id
                     (filter (\<lambda>m. messages_user_id m = users_id u) (messages (db s)))))
                   (likes (db s))\<rparr>\<rparr>)
      else (Inl OperationalError, s\<lparr>session := None\<rparr>))"
proof -
  let ?D = "(db s)
                \<lparr>users := removeAll u (users (db s)),
                 messages := filter (\<lambda>m. messages_user_id m \<noteq> users_id u) (messages (db s)),
                 follows := filter (\<lambda>f. user_being_followed_id f \<noteq> users_id u \<and>
                                user_following_id f \<noteq> users_id u) (follows (db s)),
                 likes := filter (\<lambda>l. likes_user_id l \<noteq> users_id u \<and>
                   likes_message_id l \<notin> set (map messages_id
                     (filter (\<lambda>m. messages_user_id m = users_id u) (messages (db s)))))
                   (likes (db s))\<rparr>"
  from assms(2) have "session s \<noteq> None"
    by (auto simp: add_user_to_g_def split: option.splits)
  then have lo: "do_logout s = s\<lparr>session := None\<rparr>"
    by (simp add: do_logout_def)
  from assms(2) have u: "u \<in> set (users (db s))"
    using query_get_user_SomeD by (fastforce simp: add_user_to_g_def split: option.splits)
  define d1 where "d1 = fold delete_message_row
      (filter (\<lambda>m. messages_user_id m = users_id u) (messages (db s))) (db s)"
  have e1: "d1 = (db s)
      \<lparr>messages := filter (\<lambda>m. \<not> messages_user_id m = users_id u) (messages (db s)),
       likes := filter (\<lambda>l. likes_message_id l \<notin> set (map messages_id
                  (filter (\<lambda>m. messages_user_id m = users_id u) (messages (db s)))))
                  (likes (db s))\<rparr>"
    unfolding d1_def by (rule delete_messages_where)
  have e2: "fold delete_like_row (filter (\<lambda>l. likes_user_id l = users_id u) (likes d1)) d1 =
      d1\<lparr>likes := filter (\<lambda>l. \<not> likes_user_id l = users_id u) (likes d1)\<rparr>"
    by (rule delete_likes_where)
  have e3: "delete_user_row u
      (fold delete_like_row (filter (\<lambda>l. likes_user_id l = users_id u) (likes d1)) d1) = ?D"
    unfolding e2 by (rule database.equality) (auto simp: e1 delete_user_row_def intro: filter_cong)
  have pending:
    "delete_user_row u
       (fold delete_like_row
          (filter (\<lambda>l. likes_user_id l = users_id u)
             (likes (fold delete_message_row
                (filter (\<lambda>m. messages_user_id m = users_id u) (messages (db s))) (db s))))
          (fold delete_message_row
             (filter (\<lambda>m. messages_user_id m = users_id u) (messages (db s))) (db s))) = ?D"
    using e3 unfolding d1_def .
  have ok: "integrity ?D"
    using integrity_without_user [OF assms(1) u] .
  show ?thesis
    using assms(2) ok
    by (simp only: delete_user_def lo Let_def) (simp add: pending commit_on_def commit_def)
qed

theorem delete_user_unit_witness:
  "integrity (db (mk_state [mk_message 1 1 1, mk_message 2 2 2]
       [\<lparr>user_being_followed_id = 1, user_following_id = 2\<rparr>,
        \<lparr>user_being_followed_id = 2, user_following_id = 1\<rparr>]
       [\<lparr>likes_user_id = 2, likes_message_id = 1\<rparr>,
        \<lparr>likes_user_id = 1, likes_message_id = 2\<rparr>])) \<and>
   add_user_to_g (mk_state [mk_message 1 1 1, mk_message 2 2 2]
       [\<lparr>user_being_followed_id = 1, user_following_id = 2\<rparr>,
        \<lparr>user_being_followed_id = 2, user_following_id = 1\<rparr>]
       [\<lparr>likes_user_id = 2, likes_message_id = 1\<rparr>,
        \<lparr>likes_user_id = 1, likes_message_id = 2\<rparr>]) = Some (mk_user 1 ''u1'') \<and>
   delete_user True True (mk_state [mk_message 1 1 1, mk_message 2 2 2]
       [\<lparr>user_being_followed_id = 1, user_following_id = 2\<rparr>,
        \<lparr>user_being_followed_id = 2, user_following_id = 1\<rparr>]
       [\<lparr>likes_user_id = 2, likes_message_id = 1\<rparr>,
        \<lparr>likes_user_id = 1, likes_message_id = 2\<rparr>]) =
     (Inr (Redirect ''/signup''),
      \<lparr>db = \<lparr>users = [mk_user 2 ''u2''], messages = [mk_message 2 2 2], follows = [],
             likes = []\<rparr>,
       session = None, flashed = []\<rparr>)"
proof -
  let ?s = "mk_state [mk_message 1 1 1, mk_message 2 2 2]
       [\<lparr>user_being_followed_id = 1, user_following_id = 2\<rparr>,
        \<lparr>user_being_followed_id = 2, user_following_id = 1\<rparr>]
       [\<lparr>likes_user_id = 2, likes_message_id = 1\<rparr>,
        \<lparr>likes_user_id = 1, likes_message_id = 2\<rparr>]"
  have h1: "integrity (db ?s)"
    by (simp add: ex_defs c_defs)
  have h2: "add_user_to_g ?s = Some (mk_user 1 ''u1'')"
    by (simp add: ex_defs q_defs)
  have r: "delete_user True True ?s =
     (Inr (Redirect ''/signup''),
      \<lparr>db = \<lparr>users = [mk_user 2 ''u2''], messages = [mk_message 2 2 2], follows = [],
             likes = []\<rparr>,
       session = None, flashed = []\<rparr>)"
    using delete_user_unit [OF h1 h2, of True] by (simp add: ex_defs)
  from h1 h2 r show ?thesis by (intro conjI)
qed

section \<open>Unfollowing\<close>

text \<open>
  Claim C4: unfollowing a user who is not followed does not fail. With \<open>u1\<close> following
  \<open>u2\<close>, the first \<open>stop_following\<close> removes the edge and redirects; the second finds no
  such user in \<open>g.user.following\<close> and raises \<open>ValueError\<close>.
\<close>

theorem stop_following_twice:
  "stop_following 2 (mk_state [] [\<lparr>user_being_followed_id = 2, user_following_id = 1\<rparr>] []) =
     (Inr (Redirect ''/users/1/following''), mk_state [] [] []) \<and>
   stop_following 2 (mk_state [] [] []) = (Inl ValueError, mk_state [] [] [])"
  by (simp add: stop_following_def ex_defs q_defs c_defs digit_def)

section \<open>Signup\<close>

text \<open>
  Claim C5, as stated: a duplicate username and a duplicate email are told apart. A signup
  with the email of \<open>u1\<close> and a new username and a signup with the username of \<open>u1\<close> and a
  new email raise the same \<open>IntegrityError\<close> and end in the same response, which flashes
  that the username is taken.
\<close>

theorem signup_duplicate_counterexample:
  "signup_try sample_env ''salt'' (mk_add_form ''u1'' ''other@email.com'') (db (mk_state [] [] [])) =
     Inl IntegrityError \<and>
   signup_try sample_env ''salt'' (mk_add_form ''other'' ''u1@email.com'') (db (mk_state [] [] [])) =
     Inl IntegrityError \<and>
   signup sample_env ''salt'' (mk_add_form ''other'' ''u1@email.com'') (mk_state [] [] []) =
     (Inr (Render ''users/signup.html''),
      (mk_state [] [] [])\<lparr>session := None, flashed := [(''Username already taken'', ''danger'')]\<rparr>) \<and>
   signup sample_env ''salt'' (mk_add_form ''other'' ''u1@email.com'') (mk_state [] [] []) =
   signup sample_env ''salt'' (mk_add_form ''u1'' ''other@email.com'') (mk_state [] [] [])"
  by (simp add: signup_def signup_try_def User_signup_def Let_def do_logout_def flash_def
      fresh_user_id_def mk_add_form_def ex_defs c_defs)

text \<open>
  Claim C5, amended: when the username or the email of a valid signup is already in the
  table, the commit raises \<open>IntegrityError\<close> for either, and the view answers both in one
  way: it flashes \<open>Username already taken\<close> and presents the form again.
\<close>

theorem signup_duplicate_generic:
  assumes "add_valid form" "add_username form \<noteq> []" "add_email form \<noteq> []" "add_password form \<noteq> []"
    and "Str (add_username form) \<in> set (map username (users (db s))) \<or>
         Str (add_email form) \<in> set (map email (users (db s)))"
  shows "signup_try E salt form (db (do_logout s)) = Inl IntegrityError \<and>
         signup E salt form s =
           (Inr (Render ''users/signup.html''), flash ''Username already taken'' ''danger'' (do_logout s))"
proof -
  have "signup_try E salt form (db (do_logout s)) = Inl IntegrityError"
    using signup_try_duplicate [of form "db s" E salt] assms by (simp add: db_do_logout)
  then show ?thesis using assms(1) by (simp add: signup_def Let_def)
qed

theorem signup_duplicate_generic_witness:
  "add_valid (mk_add_form ''other'' ''u1@email.com'') \<and>
   Str (add_email (mk_add_form ''other'' ''u1@email.com''))
     \<in> set (map email (users (db (mk_state [] [] [])))) \<and>
   signup sample_env ''salt'' (mk_add_form ''other'' ''u1@email.com'') (mk_state [] [] []) =
     (Inr (Render ''users/signup.html''),
      flash ''Username already taken'' ''danger'' (do_logout (mk_state [] [] [])))"
  using signup_duplicate_generic [of "mk_add_form ''other'' ''u1@email.com''" "mk_state [] [] []"
      sample_env "''salt''"]
  by (simp add: mk_add_form_def ex_defs)

text \<open>
  Claim C9: after a signup with some username has succeeded, a second signup with the same
  username fails at the commit with \<open>IntegrityError\<close>, which the view reports as a taken
  username, and one user with that username exists afterwards.
\<close>

theorem signup_same_username_twice:
  assumes "signup E salt1 form1 s = (Inr (Redirect ''/''), s1)"
    and "add_valid form2" "add_username form2 = add_username form1"
    and "add_email form2 \<noteq> []" "add_password form2 \<noteq> []"
  shows "signup_try E salt2 form2 (db (do_logout s1)) = Inl IntegrityError \<and>
         signup E salt2 form2 s1 =
           (Inr (Render ''users/signup.html''),
            s1\<lparr>session := None, flashed := flashed s1 @ [(''Username already taken'', ''danger'')]\<rparr>) \<and>
         length (filter (\<lambda>u. username u = Str (add_username form1))
                   (users (db (snd (signup E salt2 form2 s1))))) = 1"
proof -
  from signup_RedirectD [OF assms(1)] obtain u where
    t: "signup_try E salt1 form1 (db (do_logout s)) = Inr (u, db s1)"
    and ses: "session s1 = Some (users_id u)"
    by blast
  from signup_try_InrD [OF t] have i: "integrity (db s1)" and u: "u \<in> set (users (db s1))"
    and n: "username u = Str (add_username form1)" and ne: "add_username form1 \<noteq> []"
    by simp_all
  from u n have dup: "Str (add_username form2) \<in> set (map username (users (db s1)))"
    by (force simp: assms(3))
  have fail: "signup_try E salt2 form2 (db (do_logout s1)) = Inl IntegrityError"
    using signup_try_duplicate [of form2 "db s1" E salt2] assms ne dup
    by (simp add: db_do_logout)
  have lo: "do_logout s1 = s1\<lparr>session := None\<rparr>"
    using ses by (simp add: do_logout_def)
  have r: "signup E salt2 form2 s1 =
           (Inr (Render ''users/signup.html''),
            s1\<lparr>session := None, flashed := flashed s1 @ [(''Username already taken'', ''danger'')]\<rparr>)"
    using fail assms(2) by (simp add: signup_def Let_def flash_def lo)
  from i have "distinct (map username (users (db s1)))" by (simp add: integrity_def)
  from distinct_map_count [OF this u] n
  have "length (filter (\<lambda>y. username y = Str (add_username form1)) (users (db s1))) = 1"
    by simp
  with fail r show ?thesis by simp
qed

theorem signup_same_username_twice_witness:
  "signup sample_env ''salt'' (mk_add_form ''u3'' ''u3@email.com'') empty_state =
     (Inr (Redirect ''/''),
      empty_state\<lparr>db := (db empty_state)\<lparr>users := [mk_user 1 ''u3'']\<rparr>, session := Some 1\<rparr>) \<and>
   signup sample_env ''pepper'' (mk_add_form ''u3'' ''other@email.com'')
     (empty_state\<lparr>db := (db empty_state)\<lparr>users := [mk_user 1 ''u3'']\<rparr>, session := Some 1\<rparr>) =
     (Inr (Render ''users/signup.html''),
      empty_state\<lparr>db := (db empty_state)\<lparr>users := [mk_user 1 ''u3'']\<rparr>, session := None,
        flashed := [(''Username already taken'', ''danger'')]\<rparr>)"
proof -
  have h: "signup sample_env ''salt'' (mk_add_form ''u3'' ''u3@email.com'') empty_state =
     (Inr (Redirect ''/''),
      empty_state\<lparr>db := (db empty_state)\<lparr>users := [mk_user 1 ''u3'']\<rparr>, session := Some 1\<rparr>)"
    by (simp add: signup_def signup_try_def User_signup_def Let_def do_logout_def do_login_def
        fresh_user_id_def mk_add_form_def empty_state_def ex_defs c_defs)
  from signup_same_username_twice [OF h, of "mk_add_form ''u3'' ''other@email.com''" "''pepper''"] h
  show ?thesis by (simp add: mk_add_form_def empty_state_def)
qed

text \<open>
  Claim C8: once \<open>User.signup\<close> and the commit have succeeded, \<open>User.authenticate\<close> with
  the same username and password returns the new user, who has that username; with another
  password, or with a username that no user has, it returns \<open>False\<close>. The result of
  \<open>User.authenticate\<close> is a user or \<open>False\<close>: it has no error. The hasher is assumed to
  verify, against the hash it made of the password, this password and no other.
\<close>

theorem signup_then_authenticate:
  assumes "User_signup E salt name mail pwd img d = Inr (u, pending)"
    and "commit pending = Inr d'"
    and "\<forall>q. check_password_hash E (generate_password_hash E salt pwd) q \<longleftrightarrow> q = pwd"
  shows "User_authenticate E d' (Str name) pwd = AuthUser u \<and> username u = Str name \<and>
         (\<forall>q. q \<noteq> pwd \<longrightarrow> User_authenticate E d' (Str name) q = AuthFalse) \<and>
         (\<forall>n q. n \<notin> set (map username (users d')) \<longrightarrow> User_authenticate E d' n q = AuthFalse)"
proof -
  from User_signup_InrD [OF assms(1)]
  have p: "pending = d\<lparr>users := users d @ [u]\<rparr>" and n: "username u = Str name"
    and h: "password u = generate_password_hash E salt pwd" by simp_all
  from commit_InrD [OF assms(2)] have d': "d' = pending" and i: "integrity pending" by simp_all
  from i p n have "Str name \<notin> set (map username (users d))"
    by (auto simp: integrity_def)
  then have "find (\<lambda>x. username x = Str name) (users d) = None"
    by (force simp: find_None_iff image_iff)
  then have f: "find (\<lambda>x. username x = Str name) (users d') = Some u"
    using n by (simp add: d' p find_append_last)
  have unknown: "User_authenticate E d' k q = AuthFalse" if "k \<notin> set (map username (users d'))" for k q
  proof -
    from that have "find (\<lambda>x. username x = k) (users d') = None"
      by (force simp: find_None_iff image_iff)
    then show ?thesis by (simp add: User_authenticate_def)
  qed
  show ?thesis
    using f h n assms(3) unknown by (simp add: User_authenticate_def)
qed

theorem signup_then_authenticate_witness:
  "User_signup sample_env ''salt'' ''u3'' ''u3@email.com'' ''password'' None (db empty_state) =
     Inr ((mk_user 1 ''u3''), (db empty_state)\<lparr>users := [mk_user 1 ''u3'']\<rparr>) \<and>
   commit ((db empty_state)\<lparr>users := [mk_user 1 ''u3'']\<rparr>) =
     Inr ((db empty_state)\<lparr>users := [mk_user 1 ''u3'']\<rparr>) \<and>
   User_authenticate sample_env ((db empty_state)\<lparr>users := [mk_user 1 ''u3'']\<rparr>) (Str ''u3'')
     ''password'' = AuthUser (mk_user 1 ''u3'') \<and>
   User_authenticate sample_env ((db empty_state)\<lparr>users := [mk_user 1 ''u3'']\<rparr>) (Str ''u3'')
     ''password1'' = AuthFalse \<and>
   User_authenticate sample_env ((db empty_state)\<lparr>users := [mk_user 1 ''u3'']\<rparr>)
     (Str ''asdfgasdgasgd'') ''asdgfsadgf'' = AuthFalse"
proof -
  have h1: "User_signup sample_env ''salt'' ''u3'' ''u3@email.com'' ''password'' None (db empty_state) =
     Inr ((mk_user 1 ''u3''), (db empty_state)\<lparr>users := [mk_user 1 ''u3'']\<rparr>)"
    by (simp add: User_signup_def Let_def fresh_user_id_def empty_state_def ex_defs c_defs)
  have h2: "commit ((db empty_state)\<lparr>users := [mk_user 1 ''u3'']\<rparr>) =
     Inr ((db empty_state)\<lparr>users := [mk_user 1 ''u3'']\<rparr>)"
    by (simp add: empty_state_def ex_defs c_defs)
  have h3: "\<forall>q. check_password_hash sample_env (generate_password_hash sample_env ''salt'' ''password'') q
              \<longleftrightarrow> q = ''password''"
    by (auto simp: sample_env_def)
  have h4: "Str ''asdfgasdgasgd'' \<notin>
      set (map username (users ((db empty_state)\<lparr>users := [mk_user 1 ''u3'']\<rparr>)))"
    by (simp add: mk_user_def)
  from signup_then_authenticate [OF h1 h2 h3] h1 h2 h4
  show ?thesis by simp
qed

section \<open>Likes\<close>

text \<open>
  Claim C6: a logged-in user who toggles the like of a message of their own gets
  \<open>Unauthorized\<close>, whether a Like row for the pair exists or not, and nothing changes.
\<close>

theorem toggle_like_own_message:
  assumes "add_user_to_g s = Some a" "query_get_message (db s) i = Some m"
    "messages_user_id m = users_id a"
  shows "toggle_like csrf_ok referrer i s = (Inl Unauthorized, s)"
  using assms by (simp add: toggle_like_def message_get_or_404_def)

theorem toggle_like_own_message_witness:
  "add_user_to_g (mk_state [mk_message 1 1 1] [] [\<lparr>likes_user_id = 1, likes_message_id = 1\<rparr>]) =
     Some (mk_user 1 ''u1'') \<and>
   query_get_message
     (db (mk_state [mk_message 1 1 1] [] [\<lparr>likes_user_id = 1, likes_message_id = 1\<rparr>])) 1 =
     Some (mk_message 1 1 1) \<and>
   toggle_like True ''/'' 1
     (mk_state [mk_message 1 1 1] [] [\<lparr>likes_user_id = 1, likes_message_id = 1\<rparr>]) =
     (Inl Unauthorized,
      mk_state [mk_message 1 1 1] [] [\<lparr>likes_user_id = 1, likes_message_id = 1\<rparr>])"
  using toggle_like_own_message
    [of "mk_state [mk_message 1 1 1] [] [\<lparr>likes_user_id = 1, likes_message_id = 1\<rparr>]"
        "mk_user 1 ''u1''" 1 "mk_message 1 1 1" True "''/''"]
  by (simp add: ex_defs q_defs)

text \<open>
  Claim C7: on a database that satisfies its constraints, a logged-in user who toggles the
  like of a message of another user twice succeeds both times; the first toggle flips the
  presence of the Like row of the pair, and after the second the set of Like rows is the one
  before the first.
\<close>

theorem toggle_like_twice:
  assumes "integrity (db s)" "add_user_to_g s = Some a" "query_get_message (db s) i = Some m"
    "messages_user_id m \<noteq> users_id a"
  shows "fst (toggle_like True r1 i s) = Inr (Redirect r1) \<and>
         fst (toggle_like True r2 i (snd (toggle_like True r1 i s))) = Inr (Redirect r2) \<and>
         (\<lparr>likes_user_id = users_id a, likes_message_id = messages_id m\<rparr>
            \<in> set (likes (db (snd (toggle_like True r1 i s)))) \<longleftrightarrow>
          \<lparr>likes_user_id = users_id a, likes_message_id = messages_id m\<rparr>
            \<notin> set (likes (db s))) \<and>
         set (likes (db (snd (toggle_like True r2 i (snd (toggle_like True r1 i s)))))) =
           set (likes (db s))"
proof -
  let ?row = "\<lparr>likes_user_id = users_id a, likes_message_id = messages_id m\<rparr>"
  let ?l1 = "if ?row \<in> set (likes (db s)) then remove1 ?row (likes (db s))
             else likes (db s) @ [?row]"
  let ?s1 = "s\<lparr>db := (db s)\<lparr>likes := ?l1\<rparr>\<rparr>"
  have dl: "distinct (likes (db s))" using assms(1) by (simp add: integrity_def)
  have first: "toggle_like True r1 i s = (Inr (Redirect r1), ?s1)"
    using toggle_like_step [OF assms] .
  have i1: "integrity (db ?s1)"
  proof (cases "?row \<in> set (likes (db s))")
    case True
    then show ?thesis using integrity_likes_remove1 [OF assms(1)] by simp
  next
    case False
    have "users_id a \<in> set (user_ids (db s))"
      using assms(2) query_get_user_SomeD
      by (fastforce simp: add_user_to_g_def user_ids_def split: option.splits)
    moreover have "messages_id m \<in> set (message_ids (db s))"
      using assms(3) query_get_message_SomeD by (fastforce simp: message_ids_def)
    ultimately show ?thesis using integrity_likes_append [OF assms(1) False] False by simp
  qed
  have g1: "add_user_to_g ?s1 = Some a"
    using assms(2) by (simp add: add_user_to_g_likes)
  have m1: "query_get_message (db ?s1) i = Some m"
    using assms(3) by (simp add: query_get_message_likes)
  have second: "toggle_like True r2 i ?s1 =
     (Inr (Redirect r2),
      ?s1\<lparr>db := (db ?s1)\<lparr>likes :=
           (if ?row \<in> set (likes (db ?s1)) then remove1 ?row (likes (db ?s1))
            else likes (db ?s1) @ [?row])\<rparr>\<rparr>)"
    using toggle_like_step [OF i1 g1 m1 assms(4)] .
  show ?thesis
    apply (simp only: first snd_conv fst_conv second)
    using dl by (auto simp: remove1_append)
qed

theorem toggle_like_twice_witness:
  "integrity (db (mk_state [mk_message 2 2 2] [] [])) \<and>
   add_user_to_g (mk_state [mk_message 2 2 2] [] []) = Some (mk_user 1 ''u1'') \<and>
   query_get_message (db (mk_state [mk_message 2 2 2] [] [])) 2 = Some (mk_message 2 2 2) \<and>
   likes (db (snd (toggle_like True ''/'' 2 (mk_state [mk_message 2 2 2] [] [])))) =
     [\<lparr>likes_user_id = 1, likes_message_id = 2\<rparr>] \<and>
   set (likes (db (snd (toggle_like True ''/'' 2
          (snd (toggle_like True ''/'' 2 (mk_state [mk_message 2 2 2] [] []))))))) = {}"
proof -
  have h1: "integrity (db (mk_state [mk_message 2 2 2] [] []))"
    by (simp add: ex_defs c_defs)
  have h2: "add_user_to_g (mk_state [mk_message 2 2 2] [] []) = Some (mk_user 1 ''u1'')"
    by (simp add: ex_defs q_defs)
  have h3: "query_get_message (db (mk_state [mk_message 2 2 2] [] [])) 2 = Some (mk_message 2 2 2)"
    by (simp add: ex_defs q_defs)
  have h4: "messages_user_id (mk_message 2 2 2) \<noteq> users_id (mk_user 1 ''u1'')"
    by (simp add: ex_defs)
  have l: "likes (db (snd (toggle_like True ''/'' 2 (mk_state [mk_message 2 2 2] [] [])))) =
     [\<lparr>likes_user_id = 1, likes_message_id = 2\<rparr>]"
    by (simp add: toggle_like_def ex_defs q_defs c_defs)
  have e: "likes (db (mk_state [mk_message 2 2 2] [] [])) = []"
    by (simp add: ex_defs)
  from toggle_like_twice [OF h1 h2 h3 h4, of "''/''" "''/''"] h1 h2 h3 l e
  show ?thesis by simp
qed

section \<open>Profile\<close>



end
